theory Spec2Isabelle
  imports Main "HOL-Library.Word"
begin

unbundle bit_operations_syntax

section \<open>Machine types and object representations\<close>

text \<open>
  The header \<^verbatim>\<open>serializer.h\<close> copies values with \<^verbatim>\<open>memcpy\<close> and keeps its sizes in
  \<^verbatim>\<open>size_t\<close> and \<^verbatim>\<open>uint32_t\<close>. The model fixes the usual 64-bit little-endian host
  (x86-64): \<^verbatim>\<open>size_t\<close> is a 64-bit word, \<^verbatim>\<open>uint32_t\<close> a 32-bit word, a byte an 8-bit
  word. A value of an arithmetic type \<^verbatim>\<open>T\<close> is modelled by the word that holds its object
  representation (\<open>8 * sizeof(T)\<close> bits); signedness and the floating-point reading of
  the bits play no part in the code, which only copies them.
\<close>

type_synonym uint8_t = "8 word"
type_synonym uint32_t = "32 word"
type_synonym int32_t = "32 word"
type_synonym size_t = "64 word"

definition sizeof :: "'a::len itself \<Rightarrow> nat" where
  "sizeof T = LENGTH('a) div 8"

text \<open>
  The types the model calls arithmetic: a whole number of bytes, and no larger than any
  object can be (\<^verbatim>\<open>PTRDIFF_MAX\<close>).
\<close>

definition is_arithmetic :: "'a::len itself \<Rightarrow> bool" where
  "is_arithmetic T \<longleftrightarrow> LENGTH('a) = 8 * sizeof T \<and> sizeof T < 2 ^ 63"

text \<open>
  \<^verbatim>\<open>reinterpret_cast<const uint8_t*>(&value)\<close> followed by reading \<open>n\<close> bytes: the low
  byte first.
\<close>

fun to_bytes :: "nat \<Rightarrow> 'a::len word \<Rightarrow> uint8_t list" where
  "to_bytes 0 w = []"
| "to_bytes (Suc n) w = ucast w # to_bytes n (drop_bit 8 w)"

text \<open>\<^verbatim>\<open>memcpy(&data, src, sizeof(T))\<close>: the value whose bytes are the ones given.\<close>

fun from_bytes :: "uint8_t list \<Rightarrow> 'a::len word" where
  "from_bytes [] = 0"
| "from_bytes (b # bs) = ucast b OR push_bit 8 (from_bytes bs)"

text \<open>The characters of a \<^verbatim>\<open>std::string\<close> seen as bytes, and back.\<close>

definition byte_of_char :: "char \<Rightarrow> uint8_t" where
  "byte_of_char c = of_char c"

definition char_of_byte :: "uint8_t \<Rightarrow> char" where
  "char_of_byte b = char_of (unat b)"

text \<open>
  \<^verbatim>\<open>v[i]\<close> on a \<^verbatim>\<open>std::vector\<close> requires \<open>i < v.size()\<close>. An index at or past the size
  has no defined behaviour, also when only the address \<^verbatim>\<open>&v[i]\<close> is taken (a library
  built with assertions aborts there).
\<close>

definition subscript_ok :: "'a list \<Rightarrow> nat \<Rightarrow> bool" where
  "subscript_ok v i \<longleftrightarrow> i < length v"

text \<open>
  \<^verbatim>\<open>std::memcpy(dst, &buffer[pos], n)\<close>, the bytes it reads: \<open>None\<close> when the subscript is
  out of range or the copy would run past the end of the vector.
\<close>

definition memcpy_from :: "uint8_t list \<Rightarrow> size_t \<Rightarrow> nat \<Rightarrow> uint8_t list option" where
  "memcpy_from buf p n =
     (if subscript_ok buf (unat p) \<and> unat p + n \<le> length buf
      then Some (take n (drop (unat p) buf)) else None)"

text \<open>\<^verbatim>\<open>data.resize(n)\<close> on a vector of bytes: cut, or filled up with zero bytes.\<close>

definition resize :: "uint8_t list \<Rightarrow> nat \<Rightarrow> uint8_t list" where
  "resize v n = take n v @ replicate (n - length v) 0"

text \<open>
  \<^verbatim>\<open>std::memcpy(&data[i], src, n)\<close>, the vector it leaves: \<open>None\<close> when the subscript is out
  of range or the copy would run past the end of the vector.
\<close>

definition memcpy_to :: "uint8_t list \<Rightarrow> nat \<Rightarrow> uint8_t list \<Rightarrow> uint8_t list option" where
  "memcpy_to v i src =
     (if subscript_ok v i \<and> i + length src \<le> length v
      then Some (take i v @ src @ drop (i + length src) v) else None)"

section \<open>The hex renderer\<close>

definition hex_digit :: "nat \<Rightarrow> char" where
  "hex_digit n = ''0123456789abcdef'' ! n"

text \<open>What a stream in \<^verbatim>\<open>std::hex\<close> mode prints for a non-negative \<^verbatim>\<open>int\<close>.\<close>

fun hex_digits :: "nat \<Rightarrow> string" where
  "hex_digits n =
     (if n < 16 then [hex_digit n] else hex_digits (n div 16) @ [hex_digit (n mod 16)])"

declare hex_digits.simps [simp del]

text \<open>\<^verbatim>\<open>std::setw(w)\<close> with \<^verbatim>\<open>std::setfill(c)\<close>: pad on the left up to the width.\<close>

definition setw_setfill :: "nat \<Rightarrow> char \<Rightarrow> string \<Rightarrow> string" where
  "setw_setfill w c s = replicate (w - length s) c @ s"

text \<open>\<^verbatim>\<open>ss << std::setw(2) << static_cast<int>(b)\<close> on the stream prepared by the function.\<close>

definition put_hex :: "uint8_t \<Rightarrow> string" where
  "put_hex b = setw_setfill 2 (CHR ''0'') (hex_digits (unat b))"

text \<open>
  The loop of \<^verbatim>\<open>bytes_to_hex\<close>. The counter \<open>i\<close> is an \<^verbatim>\<open>int32_t\<close>: the comparison
  \<^verbatim>\<open>i < count\<close> converts it to \<^verbatim>\<open>size_t\<close> (a sign extension), and \<^verbatim>\<open>++i\<close> is the
  machine's addition, which wraps from \<^verbatim>\<open>INT32_MAX\<close> to \<^verbatim>\<open>INT32_MIN\<close> (the language
  leaves that overflow undefined). The result is \<open>None\<close> when \<^verbatim>\<open>in[i]\<close> would be a read
  outside the array.
\<close>

function bytes_to_hex_loop :: "uint8_t list \<Rightarrow> size_t \<Rightarrow> int32_t \<Rightarrow> string \<Rightarrow> string option" where
  "bytes_to_hex_loop inp count i ss =
     (if (scast i :: size_t) < count then
        (if sint i < 0 \<or> int (length inp) \<le> sint i then None
         else bytes_to_hex_loop inp count (i + 1) (ss @ put_hex (inp ! nat (sint i))))
      else Some ss)"
  by pat_completeness auto
termination
proof (relation "measure (\<lambda>(inp, count, i, ss). unat (- 1 - i))")
  show "wf (measure (\<lambda>(inp, count, i, ss). unat (- 1 - (i :: int32_t))))"
    by simp
next
  fix inp :: "uint8_t list" and count :: size_t and i :: int32_t and ss :: string
  assume test: "(scast i :: size_t) < count"
  have "i \<noteq> - 1"
  proof
    assume "i = - 1"
    then have "(scast i :: size_t) = - 1"
      by simp
    with test show False
      by simp
  qed
  then have "- 1 - i \<noteq> 0"
    by simp
  moreover have "x \<noteq> 0 \<Longrightarrow> unat (x - 1) < unat x" for x :: int32_t
    by (simp add: unat_minus_one unat_gt_0)
  ultimately have "unat (- 1 - i - 1) < unat (- 1 - i)"
    by blast
  moreover have "- 1 - (i + 1) = - 1 - i - 1"
    by simp
  ultimately show "((inp, count, i + 1, ss @ put_hex (inp ! nat (sint i))), (inp, count, i, ss))
      \<in> measure (\<lambda>(inp, count, i, ss). unat (- 1 - i))"
    by simp
qed

declare bytes_to_hex_loop.simps [simp del]

definition bytes_to_hex :: "uint8_t list \<Rightarrow> size_t \<Rightarrow> string option" where
  "bytes_to_hex inp count = bytes_to_hex_loop inp count 0 []"

section \<open>The decoder\<close>

record deserializer =
  buffer :: "uint8_t list"
  pos :: size_t

datatype error = BufferOverflow

text \<open>
  A read that returns or throws leaves the decoder and the variable passed by reference
  for the caller to look at, so both outcomes carry them: \<open>Inr\<close> for a return, \<open>Inl\<close> for
  a throw. A read has the result \<open>None\<close> when it does something without defined behaviour
  (an out-of-range subscript).
\<close>

type_synonym 'a result = "(error \<times> deserializer \<times> 'a) + (deserializer \<times> 'a)"

definition deserializer_new :: "uint8_t list \<Rightarrow> deserializer" where
  "deserializer_new buf = \<lparr>buffer = buf, pos = 0\<rparr>"

definition buffer_size :: "deserializer \<Rightarrow> size_t" where
  "buffer_size d = of_nat (length (buffer d))"

text \<open>The template \<^verbatim>\<open>operator>>(T& data)\<close>.\<close>

definition read_fixed :: "deserializer \<Rightarrow> 'a::len word \<Rightarrow> 'a word result option" where
  "read_fixed d target =
     (if pos d + of_nat (sizeof TYPE('a)) > buffer_size d then
        Some (Inl (BufferOverflow, d, target))
      else
        case memcpy_from (buffer d) (pos d) (sizeof TYPE('a)) of
          None \<Rightarrow> None
        | Some bytes \<Rightarrow>
            Some (Inr (d\<lparr>pos := pos d + of_nat (sizeof TYPE('a))\<rparr>, from_bytes bytes)))"

text \<open>
  \<^verbatim>\<open>operator>>(std::string& data)\<close>. The local \<^verbatim>\<open>size\<close> is not initialised in the source
  and is never read before the inner read has written it; the model starts it at 0.
  After \<^verbatim>\<open>data.resize(size)\<close> the subscript \<^verbatim>\<open>&data[0]\<close> is in range for a string also
  when it is empty (a \<^verbatim>\<open>std::string\<close> may be subscripted at its size), and the copy
  overwrites all \<open>size\<close> characters; the subscript \<^verbatim>\<open>&buffer[pos]\<close> is the vector's.
\<close>

definition read_string :: "deserializer \<Rightarrow> string \<Rightarrow> string result option" where
  "read_string d target =
     (case read_fixed d (0 :: uint32_t) of
        None \<Rightarrow> None
      | Some (Inl (e, d', _)) \<Rightarrow> Some (Inl (e, d', target))
      | Some (Inr (d', sz)) \<Rightarrow>
          if pos d' + ucast sz > buffer_size d' then
            Some (Inl (BufferOverflow, d', target))
          else
            case memcpy_from (buffer d') (pos d') (unat sz) of
              None \<Rightarrow> None
            | Some bytes \<Rightarrow>
                Some (Inr (d'\<lparr>pos := pos d' + ucast sz\<rparr>, map char_of_byte bytes)))"

text \<open>
  \<^verbatim>\<open>operator>>(std::vector<uint8_t>& data)\<close>. Here \<^verbatim>\<open>&data[0]\<close> is a vector subscript
  too, on the vector just resized.
\<close>

definition read_vector :: "deserializer \<Rightarrow> uint8_t list \<Rightarrow> uint8_t list result option" where
  "read_vector d target =
     (case read_fixed d (0 :: uint32_t) of
        None \<Rightarrow> None
      | Some (Inl (e, d', _)) \<Rightarrow> Some (Inl (e, d', target))
      | Some (Inr (d', sz)) \<Rightarrow>
          if pos d' + ucast sz > buffer_size d' then
            Some (Inl (BufferOverflow, d', target))
          else
            case memcpy_from (buffer d') (pos d') (unat sz) of
              None \<Rightarrow> None
            | Some bytes \<Rightarrow>
                (case memcpy_to (resize target (unat sz)) 0 bytes of
                   None \<Rightarrow> None
                 | Some data' \<Rightarrow>
                     Some (Inr (d'\<lparr>pos := pos d' + ucast sz\<rparr>, data'))))"

text \<open>
  A \<^verbatim>\<open>std::vector<U>\<close> of another element type has no overload of its own: for it
  \<^verbatim>\<open>d >> v\<close> is the template at \<^verbatim>\<open>T = std::vector<U>\<close>, which copies
  \<^verbatim>\<open>sizeof(std::vector<U>)\<close> bytes of the buffer over the vector object itself. On the host
  that object is three pointers, 24 bytes.
\<close>

type_synonym vector_object = "192 word"

definition read_vector_object :: "deserializer \<Rightarrow> vector_object \<Rightarrow> vector_object result option" where
  "read_vector_object d target = read_fixed d target"

definition get_pos :: "deserializer \<Rightarrow> size_t" where
  "get_pos d = pos d"

definition deserializer_str :: "deserializer \<Rightarrow> string option" where
  "deserializer_str d = bytes_to_hex (buffer d) (buffer_size d)"

text \<open>The decoder and the variable after a call that returned or threw.\<close>

fun after :: "'a result \<Rightarrow> deserializer \<times> 'a" where
  "after (Inl (e, d, x)) = (d, x)"
| "after (Inr (d, x)) = (d, x)"

text \<open>
  The states a decoder can be in: the vector is no longer than a vector can be
  (\<^verbatim>\<open>max_size()\<close>, which is \<^verbatim>\<open>PTRDIFF_MAX\<close> for bytes), and the cursor is inside it or
  at its end.
\<close>

definition max_size :: nat where
  "max_size = 2 ^ 63 - 1"

definition wf_deserializer :: "deserializer \<Rightarrow> bool" where
  "wf_deserializer d \<longleftrightarrow> length (buffer d) \<le> max_size \<and> unat (pos d) \<le> length (buffer d)"

section \<open>The encoder\<close>

record serializer =
  data :: "uint8_t list"

text \<open>The constructor; reserving capacity does not change the contents.\<close>

definition serializer_new :: "size_t \<Rightarrow> serializer" where
  "serializer_new capacity = \<lparr>data = []\<rparr>"

text \<open>\<^verbatim>\<open>operator<<(const T& value)\<close> for arithmetic \<^verbatim>\<open>T\<close>.\<close>

definition write_fixed :: "'a::len word \<Rightarrow> serializer \<Rightarrow> serializer" where
  "write_fixed v s = s\<lparr>data := data s @ to_bytes (sizeof TYPE('a)) v\<rparr>"

text \<open>\<^verbatim>\<open>operator<<(const std::string& value)\<close>.\<close>

definition write_string :: "string \<Rightarrow> serializer \<Rightarrow> serializer" where
  "write_string v s =
     (let len = (ucast (of_nat (length v) :: size_t) :: uint32_t);
          s' = write_fixed len s
      in s'\<lparr>data := data s' @ take (unat len) (map byte_of_char v)\<rparr>)"

text \<open>\<^verbatim>\<open>operator<<(const std::vector<T>& value)\<close> for arithmetic elements.\<close>

definition write_vector :: "'a::len word list \<Rightarrow> serializer \<Rightarrow> serializer" where
  "write_vector v s =
     fold write_fixed v (write_fixed (ucast (of_nat (length v) :: size_t) :: uint32_t) s)"

definition get_data :: "serializer \<Rightarrow> uint8_t list" where
  "get_data s = data s"

definition clear :: "serializer \<Rightarrow> serializer" where
  "clear s = s\<lparr>data := []\<rparr>"

definition serializer_str :: "serializer \<Rightarrow> string option" where
  "serializer_str s = bytes_to_hex (data s) (of_nat (length (data s)))"

section \<open>Basic facts\<close>

lemma length_to_bytes [simp]: "length (to_bytes n w) = n"
  by (induction n arbitrary: w) simp_all

lemma byte_step:
  "(ucast (ucast w :: uint8_t) :: 'a::len word) OR push_bit 8 (take_bit m (drop_bit 8 w))
     = take_bit (8 + m) w"
  by (rule bit_eqI) (auto simp add: bit_simps)

lemma from_bytes_to_bytes_take_bit:
  "(from_bytes (to_bytes n w) :: 'a::len word) = take_bit (8 * n) w"
proof (induction n arbitrary: w)
  case 0
  show ?case by simp
next
  case (Suc n)
  have "(from_bytes (to_bytes (Suc n) w) :: 'a word)
          = ucast (ucast w :: uint8_t) OR push_bit 8 (take_bit (8 * n) (drop_bit 8 w))"
    by (simp add: Suc.IH)
  also have "\<dots> = take_bit (8 + 8 * n) w"
    by (rule byte_step)
  finally show ?case by simp
qed

lemma from_bytes_to_bytes:
  assumes "is_arithmetic TYPE('a)"
  shows "from_bytes (to_bytes (sizeof TYPE('a)) w) = (w :: 'a::len word)"
proof -
  have "8 * sizeof TYPE('a) = LENGTH('a)"
    using assms by (simp add: is_arithmetic_def)
  then show ?thesis
    by (simp add: from_bytes_to_bytes_take_bit)
qed

lemma unat_of_nat_small:
  "n < 2 ^ LENGTH('a) \<Longrightarrow> unat (of_nat n :: 'a::len word) = n"
  by (simp add: unat_of_nat)

lemma unat_byte_of_char: "unat (byte_of_char c) = of_char c"
proof -
  have "byte_of_char c = of_nat (of_char c)"
    by (simp only: byte_of_char_def of_nat_of_char)
  moreover have "(of_char c :: nat) < 2 ^ LENGTH(8)"
    using nat_of_char_less_256 [of c] by simp
  ultimately show ?thesis
    by (simp only: unat_of_nat_small)
qed

lemma char_of_byte_of_char [simp]: "char_of_byte (byte_of_char c) = c"
  by (simp add: char_of_byte_def unat_byte_of_char)

lemma unat_ucast_u32 [simp]: "unat (ucast (sz :: uint32_t) :: size_t) = unat sz"
proof -
  have "unat sz < 2 ^ 32"
    using unsigned_less [of sz] by simp
  then have "unat sz < 2 ^ 64"
    by simp
  then show ?thesis
    by (simp add: unsigned_ucast_eq take_bit_nat_eq_self)
qed

lemma unat_sz_less: "unat (sz :: uint32_t) < 2 ^ 32"
  using unsigned_less [of sz] by simp

lemma unat_buffer_size:
  "wf_deserializer d \<Longrightarrow> unat (buffer_size d) = length (buffer d)"
  by (simp add: wf_deserializer_def buffer_size_def max_size_def unat_of_nat_small)

lemma unat_pos_add:
  assumes "wf_deserializer d" and "n < 2 ^ 63"
  shows "unat (pos d + of_nat n) = unat (pos d) + n"
proof -
  have "unat (pos d) < 2 ^ 63"
    using assms(1) by (simp add: wf_deserializer_def max_size_def)
  moreover have "unat (of_nat n :: size_t) = n"
    using assms(2) by (simp add: unat_of_nat_small)
  ultimately have "unat (pos d) + unat (of_nat n :: size_t) < 2 ^ LENGTH(64)"
    using assms(2) by simp
  then have "unat (pos d + of_nat n) = unat (pos d) + unat (of_nat n :: size_t)"
    by (simp only: unat_add_lem)
  with \<open>unat (of_nat n :: size_t) = n\<close> show ?thesis
    by simp
qed

lemma overflow_check:
  assumes "wf_deserializer d" and "n < 2 ^ 63"
  shows "buffer_size d < pos d + of_nat n \<longleftrightarrow> length (buffer d) < unat (pos d) + n"
  by (simp add: word_less_nat_alt unat_buffer_size [OF assms(1)] unat_pos_add [OF assms])

lemma unat_pos_add_ucast:
  assumes "wf_deserializer d"
  shows "unat (pos d + ucast (sz :: uint32_t)) = unat (pos d) + unat sz"
proof -
  have "ucast sz = (of_nat (unat sz) :: size_t)"
    by simp
  moreover have "unat sz < 2 ^ 63"
    using unat_sz_less [of sz] by simp
  ultimately show ?thesis
    using unat_pos_add [OF assms, of "unat sz"] by simp
qed

lemma overflow_check_ucast:
  assumes "wf_deserializer d"
  shows "buffer_size d < pos d + ucast (sz :: uint32_t) \<longleftrightarrow> length (buffer d) < unat (pos d) + unat sz"
  by (simp add: word_less_nat_alt unat_buffer_size [OF assms] unat_pos_add_ucast [OF assms])

lemma wf_deserializer_new:
  "length buf \<le> max_size \<Longrightarrow> wf_deserializer (deserializer_new buf)"
  by (simp add: wf_deserializer_def deserializer_new_def)

lemma memcpy_from_in_range:
  "unat p < length buf \<Longrightarrow> unat p + n \<le> length buf
     \<Longrightarrow> memcpy_from buf p n = Some (take n (drop (unat p) buf))"
  by (simp add: memcpy_from_def subscript_ok_def)

lemma memcpy_from_at_end:
  "length buf \<le> unat p \<Longrightarrow> memcpy_from buf p n = None"
  by (simp add: memcpy_from_def subscript_ok_def)

lemma memcpy_to_resized:
  "length src = n \<Longrightarrow> 0 < n \<Longrightarrow> memcpy_to (resize v n) 0 src = Some src"
  by (simp add: memcpy_to_def resize_def subscript_ok_def)

lemma memcpy_to_emptied:
  "memcpy_to (resize v 0) 0 src = None"
  by (simp add: memcpy_to_def resize_def subscript_ok_def)

lemma read_fixed_success:
  assumes "wf_deserializer d" and "sizeof TYPE('a) < 2 ^ 63" and "0 < sizeof TYPE('a)"
    and "unat (pos d) + sizeof TYPE('a) \<le> length (buffer d)"
  shows "read_fixed d (target :: 'a::len word)
           = Some (Inr (d\<lparr>pos := pos d + of_nat (sizeof TYPE('a))\<rparr>,
                        from_bytes (take (sizeof TYPE('a)) (drop (unat (pos d)) (buffer d)))))"
proof -
  have "unat (pos d) < length (buffer d)"
    using assms(3,4) by simp
  then have "memcpy_from (buffer d) (pos d) (sizeof TYPE('a))
      = Some (take (sizeof TYPE('a)) (drop (unat (pos d)) (buffer d)))"
    using assms(4) by (rule memcpy_from_in_range)
  then show ?thesis
    using assms(4) by (simp add: read_fixed_def overflow_check [OF assms(1,2)])
qed

lemma read_fixed_overflow:
  assumes "wf_deserializer d" and "sizeof TYPE('a) < 2 ^ 63"
    and "length (buffer d) < unat (pos d) + sizeof TYPE('a)"
  shows "read_fixed d (target :: 'a::len word) = Some (Inl (BufferOverflow, d, target))"
  using assms(3) by (simp add: read_fixed_def overflow_check [OF assms(1,2)])

lemma sizeof_u32 [simp]: "sizeof TYPE(32) = 4"
  by (simp add: sizeof_def)

lemma sizeof_u8 [simp]: "sizeof TYPE(8) = 1"
  by (simp add: sizeof_def)

lemma is_arithmetic_u32: "is_arithmetic TYPE(32)"
  by (simp add: is_arithmetic_def sizeof_def)

lemma length_prefix_u32:
  "n < 2 ^ 32 \<Longrightarrow> unat (ucast (of_nat n :: size_t) :: uint32_t) = n"
  by (simp add: unsigned_ucast_eq unat_of_nat take_bit_nat_eq_self)

lemma data_write_fixed:
  "data (write_fixed v s) = data s @ to_bytes (sizeof TYPE('a)) (v :: 'a::len word)"
  by (simp add: write_fixed_def)

lemma data_write_string:
  "data (write_string v s)
     = data s @ to_bytes 4 (ucast (of_nat (length v) :: size_t) :: uint32_t)
         @ take (unat (ucast (of_nat (length v) :: size_t) :: uint32_t)) (map byte_of_char v)"
  by (simp add: write_string_def Let_def data_write_fixed)

lemma data_fold_write_fixed:
  "data (fold write_fixed xs s)
     = data s @ concat (map (to_bytes (sizeof TYPE('a))) (xs :: 'a::len word list))"
  by (induction xs arbitrary: s) (simp_all add: data_write_fixed)

lemma data_write_vector:
  "data (write_vector xs s)
     = data s @ to_bytes 4 (ucast (of_nat (length xs) :: size_t) :: uint32_t)
         @ concat (map (to_bytes (sizeof TYPE('a))) (xs :: 'a::len word list))"
  by (simp add: write_vector_def data_fold_write_fixed data_write_fixed)

lemma concat_to_bytes_u8: "concat (map (to_bytes (Suc 0)) (xs :: uint8_t list)) = xs"
  by (induction xs) simp_all

lemma from_bytes_prefix:
  "(from_bytes (to_bytes 4 (w :: uint32_t)) :: uint32_t) = w"
  using from_bytes_to_bytes [OF is_arithmetic_u32, of w] by simp

lemma ucast_length_prefix:
  assumes "n < 2 ^ 32"
  shows "(ucast (ucast (of_nat n :: size_t) :: uint32_t) :: size_t) = of_nat n"
proof -
  have "unat (ucast (ucast (of_nat n :: size_t) :: uint32_t) :: size_t) = n"
    by (simp add: length_prefix_u32 [OF assms])
  moreover have "unat (of_nat n :: size_t) = n"
    using assms by (intro unat_of_nat_small) simp
  ultimately show ?thesis
    by (simp add: word_unat_eq_iff)
qed

lemma length_concat_to_bytes:
  "length (concat (map (to_bytes n) xs)) = length xs * n"
  by (induction xs) simp_all

section \<open>Reads on any decoder state\<close>

text \<open>The length-prefixed reads, once the prefix is known to be there.\<close>

lemma read_prefix:
  assumes "wf_deserializer d" and "unat (pos d) + 4 \<le> length (buffer d)"
  shows "read_fixed d (x :: uint32_t)
           = Some (Inr (d\<lparr>pos := pos d + 4\<rparr>,
                        from_bytes (take 4 (drop (unat (pos d)) (buffer d)))))"
    and "wf_deserializer (d\<lparr>pos := pos d + 4\<rparr>)"
    and "unat (pos d + 4) = unat (pos d) + 4"
proof -
  show "read_fixed d x
      = Some (Inr (d\<lparr>pos := pos d + 4\<rparr>, from_bytes (take 4 (drop (unat (pos d)) (buffer d)))))"
    using read_fixed_success [OF assms(1), where 'a = 32, of x] assms(2) by simp
  show u: "unat (pos d + 4) = unat (pos d) + 4"
    using unat_pos_add [OF assms(1), of 4] by simp
  show "wf_deserializer (d\<lparr>pos := pos d + 4\<rparr>)"
    using assms by (simp add: wf_deserializer_def u)
qed

lemma payload_check:
  assumes "wf_deserializer d" and "unat (pos d) + 4 \<le> length (buffer d)"
  shows "buffer_size (d\<lparr>pos := pos d + 4\<rparr>) < pos d + 4 + ucast (sz :: uint32_t)
           \<longleftrightarrow> length (buffer d) < unat (pos d) + 4 + unat sz"
  using overflow_check_ucast [OF read_prefix(2) [OF assms], of sz]
  by (simp add: read_prefix(3) [OF assms])

lemma read_string_overflow:
  assumes "wf_deserializer d" and "unat (pos d) + 4 \<le> length (buffer d)"
    and "length (buffer d)
           < unat (pos d) + 4 + unat (from_bytes (take 4 (drop (unat (pos d)) (buffer d))) :: uint32_t)"
  shows "read_string d target = Some (Inl (BufferOverflow, d\<lparr>pos := pos d + 4\<rparr>, target))"
  using assms(3)
  by (simp add: read_string_def read_prefix(1) [OF assms(1,2)] payload_check [OF assms(1,2)])

lemma read_vector_overflow:
  assumes "wf_deserializer d" and "unat (pos d) + 4 \<le> length (buffer d)"
    and "length (buffer d)
           < unat (pos d) + 4 + unat (from_bytes (take 4 (drop (unat (pos d)) (buffer d))) :: uint32_t)"
  shows "read_vector d target = Some (Inl (BufferOverflow, d\<lparr>pos := pos d + 4\<rparr>, target))"
  using assms(3)
  by (simp add: read_vector_def read_prefix(1) [OF assms(1,2)] payload_check [OF assms(1,2)])

lemma read_string_success:
  assumes "wf_deserializer d" and "unat (pos d) + 4 < length (buffer d)"
    and "unat (pos d) + 4 + unat (from_bytes (take 4 (drop (unat (pos d)) (buffer d))) :: uint32_t)
           \<le> length (buffer d)"
  shows "read_string d target
           = Some (Inr (d\<lparr>pos := pos d + 4
                              + ucast (from_bytes (take 4 (drop (unat (pos d)) (buffer d))) :: uint32_t)\<rparr>,
                map char_of_byte
                  (take (unat (from_bytes (take 4 (drop (unat (pos d)) (buffer d))) :: uint32_t))
                     (drop (unat (pos d) + 4) (buffer d)))))"
proof -
  let ?sz = "from_bytes (take 4 (drop (unat (pos d)) (buffer d))) :: uint32_t"
  have fits: "unat (pos d) + 4 \<le> length (buffer d)"
    using assms(2) by simp
  note rp = read_prefix [OF assms(1) fits]
  have "memcpy_from (buffer d) (pos d + 4) (unat ?sz)
      = Some (take (unat ?sz) (drop (unat (pos d + 4)) (buffer d)))"
    using assms(2,3) by (intro memcpy_from_in_range) (simp_all add: rp(3))
  then show ?thesis
    using assms(3)
    by (simp add: read_string_def rp(1) payload_check [OF assms(1) fits] rp(3))
qed

lemma read_string_at_end:
  assumes "wf_deserializer d" and "unat (pos d) + 4 = length (buffer d)"
    and "(from_bytes (take 4 (drop (unat (pos d)) (buffer d))) :: uint32_t) = 0"
  shows "read_string d target = None"
proof -
  have fits: "unat (pos d) + 4 \<le> length (buffer d)"
    using assms(2) by simp
  note rp = read_prefix [OF assms(1) fits]
  have r: "read_fixed d (0 :: uint32_t) = Some (Inr (d\<lparr>pos := pos d + 4\<rparr>, 0))"
    using rp(1) [of 0] unfolding assms(3) .
  have "\<not> buffer_size (d\<lparr>pos := pos d + 4\<rparr>) < pos d + 4"
    using payload_check [OF assms(1) fits, of 0] fits by simp
  moreover have "memcpy_from (buffer d) (pos d + 4) 0 = None"
    using assms(2) by (intro memcpy_from_at_end) (simp add: rp(3))
  ultimately show ?thesis
    by (simp add: read_string_def r)
qed

lemma read_vector_success:
  assumes "wf_deserializer d" and "unat (pos d) + 4 \<le> length (buffer d)"
    and "unat (pos d) + 4 + unat (from_bytes (take 4 (drop (unat (pos d)) (buffer d))) :: uint32_t)
           \<le> length (buffer d)"
    and "0 < unat (from_bytes (take 4 (drop (unat (pos d)) (buffer d))) :: uint32_t)"
  shows "read_vector d target
           = Some (Inr (d\<lparr>pos := pos d + 4
                              + ucast (from_bytes (take 4 (drop (unat (pos d)) (buffer d))) :: uint32_t)\<rparr>,
                take (unat (from_bytes (take 4 (drop (unat (pos d)) (buffer d))) :: uint32_t))
                  (drop (unat (pos d) + 4) (buffer d))))"
proof -
  let ?sz = "from_bytes (take 4 (drop (unat (pos d)) (buffer d))) :: uint32_t"
  let ?bytes = "take (unat ?sz) (drop (unat (pos d + 4)) (buffer d))"
  note rp = read_prefix [OF assms(1,2)]
  have "memcpy_from (buffer d) (pos d + 4) (unat ?sz) = Some ?bytes"
    using assms(3,4) by (intro memcpy_from_in_range) (simp_all add: rp(3))
  moreover have "length ?bytes = unat ?sz"
    using assms(3) by (simp add: rp(3))
  then have "memcpy_to (resize target (unat ?sz)) 0 ?bytes = Some ?bytes"
    using assms(4) by (rule memcpy_to_resized)
  ultimately show ?thesis
    using assms(3)
    by (simp add: read_vector_def rp(1) payload_check [OF assms(1,2)] rp(3))
qed

lemma read_vector_zero:
  assumes "wf_deserializer d" and "unat (pos d) + 4 \<le> length (buffer d)"
    and "(from_bytes (take 4 (drop (unat (pos d)) (buffer d))) :: uint32_t) = 0"
  shows "read_vector d target = None"
proof -
  note rp = read_prefix [OF assms(1,2)]
  have r: "read_fixed d (0 :: uint32_t) = Some (Inr (d\<lparr>pos := pos d + 4\<rparr>, 0))"
    using rp(1) [of 0] unfolding assms(3) .
  have "\<not> buffer_size (d\<lparr>pos := pos d + 4\<rparr>) < pos d + 4"
    using payload_check [OF assms(1,2), of 0] assms(2) by simp
  then show ?thesis
    by (simp add: read_vector_def r memcpy_to_emptied split: option.splits)
qed

lemma read_string_no_prefix:
  assumes "wf_deserializer d" and "length (buffer d) < unat (pos d) + 4"
  shows "read_string d target = Some (Inl (BufferOverflow, d, target))"
  using read_fixed_overflow [OF assms(1), where 'a = 32, of 0] assms(2)
  by (simp add: read_string_def)

lemma read_vector_no_prefix:
  assumes "wf_deserializer d" and "length (buffer d) < unat (pos d) + 4"
  shows "read_vector d target = Some (Inl (BufferOverflow, d, target))"
  using read_fixed_overflow [OF assms(1), where 'a = 32, of 0] assms(2)
  by (simp add: read_vector_def)

lemma read_string_zero_inside:
  assumes "wf_deserializer d" and "unat (pos d) + 4 < length (buffer d)"
    and "(from_bytes (take 4 (drop (unat (pos d)) (buffer d))) :: uint32_t) = 0"
  shows "read_string d s = Some (Inr (d\<lparr>pos := pos d + 4\<rparr>, []))"
proof -
  have "unat (pos d) + 4
      + unat (from_bytes (take 4 (drop (unat (pos d)) (buffer d))) :: uint32_t) \<le> length (buffer d)"
    using assms(2) by (simp add: assms(3))
  from read_string_success [OF assms(1,2) this, of s] show ?thesis
    unfolding assms(3) by simp
qed

lemma wf_advance:
  assumes "wf_deserializer d" and "unat p = unat (pos d) + n" and "unat (pos d) + n \<le> length (buffer d)"
  shows "wf_deserializer (d\<lparr>pos := p\<rparr>)" and "pos d \<le> p"
  using assms by (simp_all add: wf_deserializer_def word_le_nat_alt)

lemma read_fixed_cursor:
  assumes "wf_deserializer d" and "sizeof TYPE('a) < 2 ^ 63"
    and "read_fixed d (t :: 'a::len word) = Some r"
  shows "wf_deserializer (fst (after r)) \<and> pos d \<le> pos (fst (after r))"
proof (cases "length (buffer d) < unat (pos d) + sizeof TYPE('a)")
  case True
  then show ?thesis
    using assms(3) by (auto simp add: read_fixed_overflow [OF assms(1,2)] assms(1))
next
  case False
  then have fits: "unat (pos d) + sizeof TYPE('a) \<le> length (buffer d)"
    by simp
  note adv = wf_advance [OF assms(1) unat_pos_add [OF assms(1,2)] fits]
  from False assms(3) obtain x where "r = Inr (d\<lparr>pos := pos d + of_nat (sizeof TYPE('a))\<rparr>, x)"
    by (auto simp add: read_fixed_def overflow_check [OF assms(1,2)] split: option.splits)
  then show ?thesis
    by (simp add: adv)
qed

lemma prefixed_cursor:
  assumes "wf_deserializer d" and "unat (pos d) + 4 \<le> length (buffer d)"
  shows "wf_deserializer (d\<lparr>pos := pos d + 4\<rparr>)" and "pos d \<le> pos d + 4"
    and "unat (pos d) + 4 + unat (sz :: uint32_t) \<le> length (buffer d)
           \<Longrightarrow> wf_deserializer (d\<lparr>pos := pos d + 4 + ucast sz\<rparr>)"
    and "unat (pos d) + 4 + unat (sz :: uint32_t) \<le> length (buffer d)
           \<Longrightarrow> pos d \<le> pos d + 4 + ucast sz"
proof -
  note rp = read_prefix [OF assms]
  show "wf_deserializer (d\<lparr>pos := pos d + 4\<rparr>)"
    by (rule rp(2))
  show "pos d \<le> pos d + 4"
    by (simp add: word_le_nat_alt rp(3))
  assume fits: "unat (pos d) + 4 + unat sz \<le> length (buffer d)"
  have u: "unat (pos d + 4 + ucast sz) = unat (pos d) + (4 + unat sz)"
    using unat_pos_add_ucast [OF rp(2), of sz] by (simp add: rp(3))
  have f: "unat (pos d) + (4 + unat sz) \<le> length (buffer d)"
    using fits by simp
  show "wf_deserializer (d\<lparr>pos := pos d + 4 + ucast sz\<rparr>)"
    by (rule wf_advance(1) [OF assms(1) u f])
  show "pos d \<le> pos d + 4 + ucast sz"
    by (rule wf_advance(2) [OF assms(1) u f])
qed

lemma read_string_cursor:
  assumes "wf_deserializer d" and "read_string d s = Some r"
  shows "wf_deserializer (fst (after r)) \<and> pos d \<le> pos (fst (after r))"
proof -
  let ?sz = "from_bytes (take 4 (drop (unat (pos d)) (buffer d))) :: uint32_t"
  consider (no_prefix) "length (buffer d) < unat (pos d) + 4"
    | (overflow) "unat (pos d) + 4 \<le> length (buffer d)"
        "length (buffer d) < unat (pos d) + 4 + unat ?sz"
    | (at_end) "unat (pos d) + 4 = length (buffer d)" "unat ?sz = 0"
    | (success) "unat (pos d) + 4 < length (buffer d)"
        "unat (pos d) + 4 + unat ?sz \<le> length (buffer d)"
    by linarith
  then show ?thesis
  proof cases
    case no_prefix
    then show ?thesis
      using assms(2) by (auto simp add: read_string_no_prefix [OF assms(1)] assms(1))
  next
    case overflow
    then show ?thesis
      using assms(2)
      by (auto simp add: read_string_overflow [OF assms(1)] prefixed_cursor(1,2) [OF assms(1)])
  next
    case at_end
    then have "?sz = 0"
      by (simp add: unat_eq_0)
    with at_end(1) have "read_string d s = None"
      by (intro read_string_at_end [OF assms(1)])
    with assms(2) show ?thesis
      by simp
  next
    case success
    then have fits: "unat (pos d) + 4 \<le> length (buffer d)"
      by simp
    from success show ?thesis
      using assms(2)
      by (auto simp add: read_string_success [OF assms(1)] prefixed_cursor(3,4) [OF assms(1) fits])
  qed
qed

lemma read_vector_cursor:
  assumes "wf_deserializer d" and "read_vector d v = Some r"
  shows "wf_deserializer (fst (after r)) \<and> pos d \<le> pos (fst (after r))"
proof -
  let ?sz = "from_bytes (take 4 (drop (unat (pos d)) (buffer d))) :: uint32_t"
  consider (no_prefix) "length (buffer d) < unat (pos d) + 4"
    | (overflow) "unat (pos d) + 4 \<le> length (buffer d)"
        "length (buffer d) < unat (pos d) + 4 + unat ?sz"
    | (zero) "unat (pos d) + 4 \<le> length (buffer d)" "unat ?sz = 0"
    | (success) "unat (pos d) + 4 \<le> length (buffer d)"
        "unat (pos d) + 4 + unat ?sz \<le> length (buffer d)" "0 < unat ?sz"
    by linarith
  then show ?thesis
  proof cases
    case no_prefix
    then show ?thesis
      using assms(2) by (auto simp add: read_vector_no_prefix [OF assms(1)] assms(1))
  next
    case overflow
    then show ?thesis
      using assms(2)
      by (auto simp add: read_vector_overflow [OF assms(1)] prefixed_cursor(1,2) [OF assms(1)])
  next
    case zero
    then have "?sz = 0"
      by (simp add: unat_eq_0)
    with zero(1) have "read_vector d v = None"
      by (intro read_vector_zero [OF assms(1)])
    with assms(2) show ?thesis
      by simp
  next
    case success
    then show ?thesis
      using assms(2)
      by (auto simp add: read_vector_success [OF assms(1)] prefixed_cursor(3,4) [OF assms(1)])
  qed
qed

text \<open>A fresh decoder on a length prefix followed by a payload of that length.\<close>

lemma fresh_prefixed:
  fixes n :: nat and payload :: "uint8_t list"
  assumes "n < 2 ^ 32"
  defines "sz \<equiv> (ucast (of_nat n :: size_t) :: uint32_t)"
  defines "buf \<equiv> to_bytes 4 sz @ payload"
  assumes "length payload = n"
  shows "wf_deserializer (deserializer_new buf)"
    and "unat (pos (deserializer_new buf)) = 0"
    and "length (buffer (deserializer_new buf)) = 4 + n"
    and "(from_bytes (take 4 (drop 0 (buffer (deserializer_new buf)))) :: uint32_t) = sz"
    and "unat sz = n"
    and "drop 4 (buffer (deserializer_new buf)) = payload"
proof -
  show len: "length (buffer (deserializer_new buf)) = 4 + n"
    by (simp add: buf_def assms(4) deserializer_new_def)
  show "unat sz = n"
    unfolding sz_def by (rule length_prefix_u32 [OF assms(1)])
  show "wf_deserializer (deserializer_new buf)"
    using assms(1) len by (intro wf_deserializer_new) (simp add: deserializer_new_def max_size_def)
  show "unat (pos (deserializer_new buf)) = 0"
    by (simp add: deserializer_new_def)
  show "(from_bytes (take 4 (drop 0 (buffer (deserializer_new buf)))) :: uint32_t) = sz"
    by (simp add: deserializer_new_def buf_def from_bytes_prefix)
  show "drop 4 (buffer (deserializer_new buf)) = payload"
    by (simp add: deserializer_new_def buf_def)
qed

lemma wf_example_cursor: "wf_deserializer \<lparr>buffer = [2, 0, 0, 0, 0x68, 0x69, 9], pos = 0\<rparr>"
  by (simp add: wf_deserializer_def max_size_def)

lemma sizeof_u16_small: "sizeof TYPE(16) < 2 ^ 63"
  by (simp add: sizeof_def)

lemma wf_example_truncated: "wf_deserializer \<lparr>buffer = [9, 0, 0, 0, 1], pos = 0\<rparr>"
  by (simp add: wf_deserializer_def max_size_def)

section \<open>Round trips\<close>

text \<open>
  Claim C2: a decoder built on the buffer that holds exactly the encoding of a value \<open>v\<close>
  of an arithmetic type reads, with one fixed-width read of that type, the value \<open>v\<close>
  itself, bit for bit, and its cursor has moved from 0 to \<open>sizeof(T)\<close>.
\<close>

theorem fixed_round_trip:
  assumes "is_arithmetic TYPE('a)"
  shows "read_fixed (deserializer_new (get_data (write_fixed v (serializer_new capacity)))) target
           = Some (Inr (\<lparr>buffer = to_bytes (sizeof TYPE('a)) v, pos = of_nat (sizeof TYPE('a))\<rparr>,
                        (v :: 'a::len word)))
         \<and> unat (of_nat (sizeof TYPE('a)) :: size_t) = sizeof TYPE('a)"
proof -
  let ?buf = "to_bytes (sizeof TYPE('a)) v"
  let ?d = "deserializer_new ?buf"
  have small: "sizeof TYPE('a) < 2 ^ 63" and whole: "LENGTH('a) = 8 * sizeof TYPE('a)"
    using assms by (simp_all add: is_arithmetic_def)
  have pos: "0 < sizeof TYPE('a)"
    using whole len_gt_0 [where 'a = 'a] by (cases "sizeof TYPE('a)") simp_all
  have buf: "get_data (write_fixed v (serializer_new capacity)) = ?buf"
    by (simp add: get_data_def write_fixed_def serializer_new_def)
  have wf: "wf_deserializer ?d"
    using small by (intro wf_deserializer_new) (simp add: max_size_def)
  have fits: "unat (pos ?d) + sizeof TYPE('a) \<le> length (buffer ?d)"
    by (simp add: deserializer_new_def)
  have "read_fixed ?d target
          = Some (Inr (?d\<lparr>pos := pos ?d + of_nat (sizeof TYPE('a))\<rparr>,
                 from_bytes (take (sizeof TYPE('a)) (drop (unat (pos ?d)) (buffer ?d)))))"
    by (rule read_fixed_success [OF wf small pos fits])
  moreover have "take (sizeof TYPE('a)) (drop (unat (pos ?d)) (buffer ?d)) = ?buf"
    by (simp add: deserializer_new_def)
  moreover have "unat (of_nat (sizeof TYPE('a)) :: size_t) = sizeof TYPE('a)"
    using small by (intro unat_of_nat_small) simp
  ultimately show ?thesis
    by (simp add: buf from_bytes_to_bytes [OF assms] deserializer_new_def)
qed

theorem fixed_round_trip_witness:
  "is_arithmetic TYPE(32) \<and>
   read_fixed (deserializer_new (get_data (write_fixed (0xDEADBEEF :: uint32_t) (serializer_new 0))))
       (0 :: uint32_t)
     = Some (Inr (\<lparr>buffer = [0xEF, 0xBE, 0xAD, 0xDE], pos = 4\<rparr>, 0xDEADBEEF))"
proof -
  have a: "is_arithmetic TYPE(32)"
    by (rule is_arithmetic_u32)
  have "to_bytes (sizeof TYPE(32)) (0xDEADBEEF :: uint32_t) = [0xEF, 0xBE, 0xAD, 0xDE]"
    by code_simp
  then show ?thesis
    using a fixed_round_trip [OF a, of "0xDEADBEEF" 0 0] by simp
qed

text \<open>
  A string of at least one and fewer than \<open>2\<^sup>3\<^sup>2\<close> bytes is read back from its own
  encoding, and the cursor ends after the prefix and the content.
\<close>

lemma string_round_trip_nonempty:
  assumes "length s < 2 ^ 32" and "s \<noteq> []"
  shows "read_string (deserializer_new (get_data (write_string s (serializer_new capacity)))) target
           = Some (Inr (\<lparr>buffer = get_data (write_string s (serializer_new capacity)),
                         pos = 4 + of_nat (length s)\<rparr>, s))"
proof -
  let ?sz = "ucast (of_nat (length s) :: size_t) :: uint32_t"
  let ?payload = "map byte_of_char s"
  let ?buf = "to_bytes 4 ?sz @ ?payload"
  let ?d = "deserializer_new ?buf"
  have len: "length ?payload = length s"
    by simp
  note fp = fresh_prefixed [OF assms(1) len]
  have buf: "get_data (write_string s (serializer_new capacity)) = ?buf"
    by (simp add: get_data_def data_write_string serializer_new_def fp(5))
  have "read_string ?d target
      = Some (Inr (?d\<lparr>pos := pos ?d + 4
                       + ucast (from_bytes (take 4 (drop (unat (pos ?d)) (buffer ?d))) :: uint32_t)\<rparr>,
           map char_of_byte
             (take (unat (from_bytes (take 4 (drop (unat (pos ?d)) (buffer ?d))) :: uint32_t))
                (drop (unat (pos ?d) + 4) (buffer ?d)))))"
    using assms(2) by (intro read_string_success [OF fp(1)]) (simp_all only: fp add_0 length_greater_0_conv, simp_all)
  then have "read_string ?d target
      = Some (Inr (\<lparr>buffer = ?buf, pos = 4 + ucast ?sz\<rparr>, map char_of_byte ?payload))"
    by (simp only: fp add_0) (simp add: deserializer_new_def)
  moreover have "map char_of_byte ?payload = s"
    by (simp add: comp_def)
  ultimately show ?thesis
    by (simp only: buf ucast_length_prefix [OF assms(1)])
qed

lemma string_round_trip_example:
  "read_string (deserializer_new (get_data (write_string ''abc'' (serializer_new 0)))) ''old''
     = Some (Inr (\<lparr>buffer = [3, 0, 0, 0, 0x61, 0x62, 0x63], pos = 7\<rparr>, ''abc''))"
proof -
  have "get_data (write_string ''abc'' (serializer_new 0)) = [3, 0, 0, 0, 0x61, 0x62, 0x63]"
    by code_simp
  then show ?thesis
    using string_round_trip_nonempty [of "''abc''" 0 "''old''"] by simp
qed

text \<open>
  Claim C3 says that every string of fewer than \<open>2\<^sup>3\<^sup>2\<close> bytes is read back, the empty
  string included. The encoding of the empty string is \<open>00 00 00 00\<close>. After the prefix
  the cursor is 4, the size of the buffer; the length check passes, and the source then
  evaluates \<^verbatim>\<open>&buffer[pos]\<close> with \<open>pos = buffer.size()\<close>: a subscript out of range. The
  read of the empty string has no defined result.
\<close>

theorem empty_string_round_trip_undefined:
  "get_data (write_string [] (serializer_new capacity)) = [0, 0, 0, 0]
   \<and> read_string (deserializer_new (get_data (write_string [] (serializer_new capacity)))) target
       = None"
proof -
  have z: "to_bytes 4 (0 :: uint32_t) = [0, 0, 0, 0]"
    by code_simp
  have buf: "get_data (write_string [] (serializer_new capacity)) = [0, 0, 0, 0]"
    by (simp add: get_data_def data_write_string serializer_new_def z)
  have wf: "wf_deserializer (deserializer_new [0, 0, 0, 0])"
    by (intro wf_deserializer_new) (simp add: max_size_def)
  have "read_string (deserializer_new [0, 0, 0, 0]) target = None"
    by (rule read_string_at_end [OF wf]) (simp_all add: deserializer_new_def)
  with buf show ?thesis
    by simp
qed

text \<open>
  Claim C4, as the code has it: a decoder built on the buffer that holds exactly the
  encoding of a sequence of bytes (\<^verbatim>\<open>std::vector<uint8_t>\<close>) with at least one and fewer
  than \<open>2\<^sup>3\<^sup>2\<close> elements reads, with one byte-sequence read, an equal sequence.
\<close>

theorem byte_vector_round_trip:
  assumes "length xs < 2 ^ 32" and "xs \<noteq> []"
  shows "read_vector (deserializer_new (get_data (write_vector xs (serializer_new capacity)))) target
           = Some (Inr (\<lparr>buffer = get_data (write_vector xs (serializer_new capacity)),
                         pos = 4 + of_nat (length xs)\<rparr>, xs))"
proof -
  let ?sz = "ucast (of_nat (length xs) :: size_t) :: uint32_t"
  let ?buf = "to_bytes 4 ?sz @ xs"
  let ?d = "deserializer_new ?buf"
  note fp = fresh_prefixed [OF assms(1) refl]
  have buf: "get_data (write_vector xs (serializer_new capacity)) = ?buf"
    by (simp add: get_data_def data_write_vector serializer_new_def concat_to_bytes_u8)
  have "read_vector ?d target
      = Some (Inr (?d\<lparr>pos := pos ?d + 4
                       + ucast (from_bytes (take 4 (drop (unat (pos ?d)) (buffer ?d))) :: uint32_t)\<rparr>,
           take (unat (from_bytes (take 4 (drop (unat (pos ?d)) (buffer ?d))) :: uint32_t))
             (drop (unat (pos ?d) + 4) (buffer ?d))))"
    using assms(2)
    by (intro read_vector_success [OF fp(1)]) (simp_all only: fp add_0 length_greater_0_conv, simp_all)
  then have "read_vector ?d target = Some (Inr (\<lparr>buffer = ?buf, pos = 4 + ucast ?sz\<rparr>, xs))"
    by (simp only: fp add_0) (simp add: deserializer_new_def)
  then show ?thesis
    by (simp only: buf ucast_length_prefix [OF assms(1)])
qed

theorem byte_vector_round_trip_witness:
  "length [0x10, 0x20 :: uint8_t] < (2 :: nat) ^ 32 \<and> [0x10, 0x20 :: uint8_t] \<noteq> [] \<and>
   read_vector (deserializer_new (get_data (write_vector [0x10, 0x20 :: uint8_t] (serializer_new 0)))) [7]
     = Some (Inr (\<lparr>buffer = [2, 0, 0, 0, 0x10, 0x20], pos = 6\<rparr>, [0x10, 0x20]))"
proof -
  have a: "length [0x10, 0x20 :: uint8_t] < (2 :: nat) ^ 32" and b: "[0x10, 0x20 :: uint8_t] \<noteq> []"
    by simp_all
  have "get_data (write_vector [0x10, 0x20 :: uint8_t] (serializer_new 0)) = [2, 0, 0, 0, 0x10, 0x20]"
    by code_simp
  then show ?thesis
    using a b byte_vector_round_trip [OF a b, of 0 "[7]"] by simp
qed

text \<open>
  Claim C4 as stated speaks of every fixed-width element type and of a read of the same
  element type. The encoding of the one-element sequence \<open>0x0102\<close> of 16-bit values is
  \<open>01 00 00 00 02 01\<close>. Reading it into a \<^verbatim>\<open>std::vector<uint16_t>\<close> is the template read
  of the 24 bytes of the vector object: on these 6 bytes it throws BufferOverflow and
  yields no sequence.
\<close>

theorem sequence_round_trip_counterexample:
  "get_data (write_vector [0x0102 :: 16 word] (serializer_new 0)) = [1, 0, 0, 0, 0x02, 0x01]
   \<and> read_vector_object
         (deserializer_new (get_data (write_vector [0x0102 :: 16 word] (serializer_new 0)))) 0
       = Some (Inl (BufferOverflow, \<lparr>buffer = [1, 0, 0, 0, 0x02, 0x01], pos = 0\<rparr>, 0))"
proof -
  have buf: "get_data (write_vector [0x0102 :: 16 word] (serializer_new 0)) = [1, 0, 0, 0, 0x02, 0x01]"
    by code_simp
  have s: "sizeof TYPE(192) = 24"
    by (simp add: sizeof_def)
  have "read_vector_object (deserializer_new [1, 0, 0, 0, 0x02, 0x01]) 0
      = Some (Inl (BufferOverflow, \<lparr>buffer = [1, 0, 0, 0, 0x02, 0x01], pos = 0\<rparr>, 0))"
    by (simp add: read_vector_object_def read_fixed_def s deserializer_new_def buffer_size_def)
  with buf show ?thesis
    by simp
qed

text \<open>
  The bound on the number of elements is needed as well: the count is cast to 32 bits, so
  \<open>2\<^sup>3\<^sup>2 + 1\<close> zero bytes are written after a count of 1 and read back as a single
  byte.
\<close>

lemma byte_vector_count_wraps:
  "read_vector (deserializer_new (get_data (write_vector (replicate (2 ^ 32 + 1) (0 :: uint8_t))
      (serializer_new 0)))) []
    = Some (Inr (\<lparr>buffer = [1, 0, 0, 0] @ replicate (2 ^ 32 + 1) 0, pos = 5\<rparr>, [0]))"
proof -
  define buf where "buf = [1, 0, 0, 0] @ replicate (2 ^ 32 + 1) (0 :: uint8_t)"
  let ?d = "deserializer_new buf"
  have len: "length buf = 5 + 2 ^ 32"
    by (simp add: buf_def)
  have z: "to_bytes 4 (1 :: uint32_t) = [1, 0, 0, 0]"
    by code_simp
  have w: "(4294967297 :: uint32_t) = 1"
    by simp
  have buf: "get_data (write_vector (replicate (2 ^ 32 + 1) (0 :: uint8_t)) (serializer_new 0)) = buf"
    by (simp add: get_data_def data_write_vector serializer_new_def concat_to_bytes_u8 w z buf_def)
  have wf0: "wf_deserializer ?d"
    by (intro wf_deserializer_new) (simp add: max_size_def len)
  have p: "unat (pos ?d) = 0" and l: "length (buffer ?d) = 5 + 2 ^ 32"
    by (simp_all add: deserializer_new_def len)
  have sz: "(from_bytes (take 4 (drop (unat (pos ?d)) (buffer ?d))) :: uint32_t) = 1"
    by (simp add: deserializer_new_def buf_def)
  have "read_vector ?d []
      = Some (Inr (?d\<lparr>pos := pos ?d + 4
                       + ucast (from_bytes (take 4 (drop (unat (pos ?d)) (buffer ?d))) :: uint32_t)\<rparr>,
           take (unat (from_bytes (take 4 (drop (unat (pos ?d)) (buffer ?d))) :: uint32_t))
             (drop (unat (pos ?d) + 4) (buffer ?d))))"
    by (rule read_vector_success [OF wf0]) (simp_all only: sz, simp_all only: p l, simp_all)
  then have "read_vector ?d [] = Some (Inr (\<lparr>buffer = buf, pos = 5\<rparr>, [0]))"
    unfolding sz p by (simp add: deserializer_new_def) (simp add: buf_def)
  then show ?thesis
    by (simp only: buf) (simp only: buf_def)
qed

section \<open>Length accounting\<close>

text \<open>
  Claim C6, as the code has it: a fixed-width write appends \<open>sizeof(T)\<close> bytes, a write
  of a string of \<open>L < 2\<^sup>3\<^sup>2\<close> bytes appends \<open>4 + L\<close> bytes, a write of a sequence of
  \<open>N\<close> elements of width \<open>W\<close> appends \<open>4 + N * W\<close> bytes, and each leaves the bytes
  written before in place.
\<close>

theorem encoder_growth:
  "length (data (write_fixed (v :: 'a::len word) s)) = length (data s) + sizeof TYPE('a)
   \<and> take (length (data s)) (data (write_fixed v s)) = data s
   \<and> (length str < 2 ^ 32
        \<longrightarrow> length (data (write_string str s)) = length (data s) + (4 + length str))
   \<and> take (length (data s)) (data (write_string str s)) = data s
   \<and> length (data (write_vector (xs :: 'b::len word list) s))
       = length (data s) + (4 + length xs * sizeof TYPE('b))
   \<and> take (length (data s)) (data (write_vector xs s)) = data s"
  by (simp add: data_write_fixed data_write_string data_write_vector
      length_concat_to_bytes length_prefix_u32)

theorem encoder_growth_witness:
  "length ''abc'' < (2 :: nat) ^ 32
   \<and> length (data (write_fixed (7 :: 16 word) \<lparr>data = [9]\<rparr>)) = 1 + 2
   \<and> take 1 (data (write_fixed (7 :: 16 word) \<lparr>data = [9]\<rparr>)) = [9]
   \<and> length (data (write_string ''abc'' \<lparr>data = [9]\<rparr>)) = 1 + (4 + 3)
   \<and> take 1 (data (write_string ''abc'' \<lparr>data = [9]\<rparr>)) = [9]
   \<and> length (data (write_vector [1, 2, 3 :: 16 word] \<lparr>data = [9]\<rparr>)) = 1 + (4 + 3 * 2)
   \<and> take 1 (data (write_vector [1, 2, 3 :: 16 word] \<lparr>data = [9]\<rparr>)) = [9]"
proof -
  have a: "length ''abc'' < (2 :: nat) ^ 32"
    by simp
  have b: "sizeof TYPE(16) = 2"
    by (simp add: sizeof_def)
  show ?thesis
    using a encoder_growth [of "7 :: 16 word" "\<lparr>data = [9]\<rparr>" "''abc''" "[1, 2, 3 :: 16 word]"]
    by (simp add: b)
qed

text \<open>
  Claim C6 as stated has no bound on the string: the length is cast to 32 bits and only
  that many bytes are appended, so a string of \<open>2\<^sup>3\<^sup>2\<close> bytes grows the buffer by 4
  bytes.
\<close>

text \<open>
  Claim C6 as stated has no bound on the string: the length is cast to 32 bits and only
  that many bytes are appended, so a string of \<open>2\<^sup>3\<^sup>2\<close> bytes grows the buffer by 4
  bytes.
\<close>

theorem string_growth_counterexample:
  "length (data (write_string (replicate (2 ^ 32) (CHR ''a'')) (serializer_new 0))) = 4
   \<and> length (data (serializer_new 0)) + (4 + length (replicate (2 ^ 32) (CHR ''a''))) = 4 + 2 ^ 32"
  by (simp add: data_write_string serializer_new_def)

section \<open>Truncated input\<close>

text \<open>
  Claim C1, as the code has it: when the inner read of the 4-byte length has succeeded and
  the check \<^verbatim>\<open>pos + size > buffer.size()\<close> then fires, the string read and the
  byte-sequence read fail with BufferOverflow and leave the variable passed by reference
  as it was; the cursor is not put back: it stays just after the length prefix, 4 bytes
  further than before the call.
\<close>

theorem declared_length_overflow:
  assumes "read_fixed d x = Some (Inr (d', sz :: uint32_t))"
    and "buffer_size d' < pos d' + ucast sz"
  shows "read_string d s = Some (Inl (BufferOverflow, d', s))
       \<and> read_vector d v = Some (Inl (BufferOverflow, d', v))
       \<and> d' = d\<lparr>pos := pos d + 4\<rparr>
       \<and> (wf_deserializer d \<longrightarrow> unat (pos d') = unat (pos d) + 4)"
proof -
  have ok: "\<not> buffer_size d < pos d + of_nat (sizeof TYPE(32))"
    using assms(1) by (auto simp add: read_fixed_def split: if_splits)
  with assms(1) obtain bytes where bytes: "memcpy_from (buffer d) (pos d) 4 = Some bytes"
    and d': "d' = d\<lparr>pos := pos d + 4\<rparr>" and sz: "sz = from_bytes bytes"
    by (auto simp add: read_fixed_def split: option.splits)
  have r0: "read_fixed d (0 :: uint32_t) = Some (Inr (d', sz))"
    using ok by (simp add: read_fixed_def bytes d' sz)
  have "read_string d s = Some (Inl (BufferOverflow, d', s))"
    using assms(2) by (simp add: read_string_def r0)
  moreover have "read_vector d v = Some (Inl (BufferOverflow, d', v))"
    using assms(2) by (simp add: read_vector_def r0)
  moreover have "unat (pos d') = unat (pos d) + 4" if "wf_deserializer d"
    using unat_pos_add [OF that, of 4] by (simp add: d')
  ultimately show ?thesis
    using d' by simp
qed

theorem declared_length_overflow_witness:
  "read_fixed \<lparr>buffer = [5, 0, 0, 0, 1, 2], pos = 0\<rparr> (9 :: uint32_t)
     = Some (Inr (\<lparr>buffer = [5, 0, 0, 0, 1, 2], pos = 4\<rparr>, 5))
   \<and> buffer_size \<lparr>buffer = [5, 0, 0, 0, 1, 2], pos = 4\<rparr>
       < pos \<lparr>buffer = [5, 0, 0, 0, 1, 2], pos = 4\<rparr> + ucast (5 :: uint32_t)
   \<and> read_string \<lparr>buffer = [5, 0, 0, 0, 1, 2], pos = 0\<rparr> ''old''
       = Some (Inl (BufferOverflow, \<lparr>buffer = [5, 0, 0, 0, 1, 2], pos = 4\<rparr>, ''old''))
   \<and> read_vector \<lparr>buffer = [5, 0, 0, 0, 1, 2], pos = 0\<rparr> [7]
       = Some (Inl (BufferOverflow, \<lparr>buffer = [5, 0, 0, 0, 1, 2], pos = 4\<rparr>, [7]))"
proof -
  have a: "read_fixed \<lparr>buffer = [5, 0, 0, 0, 1, 2], pos = 0\<rparr> (9 :: uint32_t)
     = Some (Inr (\<lparr>buffer = [5, 0, 0, 0, 1, 2], pos = 4\<rparr>, 5))"
    by code_simp
  have b: "buffer_size \<lparr>buffer = [5, 0, 0, 0, 1, 2], pos = 4\<rparr>
       < pos \<lparr>buffer = [5, 0, 0, 0, 1, 2], pos = 4\<rparr> + ucast (5 :: uint32_t)"
    by (simp add: buffer_size_def)
  note t = declared_length_overflow [OF a b, of "''old''" "[7]"]
  show ?thesis
    by (intro conjI a b t [THEN conjunct1] t [THEN conjunct2, THEN conjunct1])
qed

text \<open>
  Claim C1 as stated says that the cursor is equal to its value before the length prefix
  was read. On the buffer \<open>05 00 00 00 01 02\<close> (declared length 5, two bytes left) the
  string read of a fresh decoder throws with the cursor at 4, not 0.
\<close>

theorem cursor_unchanged_counterexample:
  "read_string (deserializer_new [5, 0, 0, 0, 1, 2]) ''old''
     = Some (Inl (BufferOverflow, \<lparr>buffer = [5, 0, 0, 0, 1, 2], pos = 4\<rparr>, ''old''))
   \<and> pos (deserializer_new [5, 0, 0, 0, 1, 2]) = 0
   \<and> read_fixed (deserializer_new [5, 0, 0, 0, 1, 2]) (0 :: uint32_t)
       = Some (Inr (\<lparr>buffer = [5, 0, 0, 0, 1, 2], pos = 4\<rparr>, 5))"
  by code_simp

text \<open>
  Claim C5: when fewer than \<open>sizeof(T)\<close> bytes remain, a fixed-width read of type \<open>T\<close>
  throws BufferOverflow; when the 4-byte prefix is there and declares more than the bytes
  remaining after it, the inner read of the prefix returns and the string read and the
  byte-sequence read throw BufferOverflow. A fresh decoder on a buffer is the case of cursor 0.
\<close>

theorem truncation_detected:
  assumes "wf_deserializer d"
  shows "(sizeof TYPE('a) < 2 ^ 63 \<and> length (buffer d) - unat (pos d) < sizeof TYPE('a)
            \<longrightarrow> read_fixed d (t :: 'a::len word) = Some (Inl (BufferOverflow, d, t)))
       \<and> (4 \<le> length (buffer d) - unat (pos d)
            \<and> length (buffer d) - unat (pos d) - 4
                < unat (from_bytes (take 4 (drop (unat (pos d)) (buffer d))) :: uint32_t)
            \<longrightarrow> read_fixed d (x :: uint32_t)
                  = Some (Inr (d\<lparr>pos := pos d + 4\<rparr>,
                               from_bytes (take 4 (drop (unat (pos d)) (buffer d)))))
                \<and> read_string d s = Some (Inl (BufferOverflow, d\<lparr>pos := pos d + 4\<rparr>, s))
                \<and> read_vector d v = Some (Inl (BufferOverflow, d\<lparr>pos := pos d + 4\<rparr>, v)))"
proof (intro conjI impI)
  assume a: "sizeof TYPE('a) < 2 ^ 63 \<and> length (buffer d) - unat (pos d) < sizeof TYPE('a)"
  have "unat (pos d) \<le> length (buffer d)"
    using assms by (simp add: wf_deserializer_def)
  with a have "length (buffer d) < unat (pos d) + sizeof TYPE('a)"
    by linarith
  with a show "read_fixed d t = Some (Inl (BufferOverflow, d, t))"
    by (intro read_fixed_overflow [OF assms]) simp_all
next
  assume a: "4 \<le> length (buffer d) - unat (pos d)
    \<and> length (buffer d) - unat (pos d) - 4
        < unat (from_bytes (take 4 (drop (unat (pos d)) (buffer d))) :: uint32_t)"
  then have fits: "unat (pos d) + 4 \<le> length (buffer d)"
    by linarith
  have over: "length (buffer d)
      < unat (pos d) + 4 + unat (from_bytes (take 4 (drop (unat (pos d)) (buffer d))) :: uint32_t)"
    using a by linarith
  show "read_fixed d x
      = Some (Inr (d\<lparr>pos := pos d + 4\<rparr>, from_bytes (take 4 (drop (unat (pos d)) (buffer d)))))"
    by (rule read_prefix(1) [OF assms fits])
  show "read_string d s = Some (Inl (BufferOverflow, d\<lparr>pos := pos d + 4\<rparr>, s))"
    by (rule read_string_overflow [OF assms fits over])
  show "read_vector d v = Some (Inl (BufferOverflow, d\<lparr>pos := pos d + 4\<rparr>, v))"
    by (rule read_vector_overflow [OF assms fits over])
qed

theorem truncation_detected_witness:
  "wf_deserializer \<lparr>buffer = [9, 0, 0, 0, 1], pos = 0\<rparr>
   \<and> read_fixed \<lparr>buffer = [9, 0, 0, 0, 1], pos = 0\<rparr> (3 :: 64 word)
       = Some (Inl (BufferOverflow, \<lparr>buffer = [9, 0, 0, 0, 1], pos = 0\<rparr>, 3))
   \<and> read_fixed \<lparr>buffer = [9, 0, 0, 0, 1], pos = 0\<rparr> (3 :: uint32_t)
       = Some (Inr (\<lparr>buffer = [9, 0, 0, 0, 1], pos = 4\<rparr>, 9))
   \<and> read_string \<lparr>buffer = [9, 0, 0, 0, 1], pos = 0\<rparr> ''old''
       = Some (Inl (BufferOverflow, \<lparr>buffer = [9, 0, 0, 0, 1], pos = 4\<rparr>, ''old''))
   \<and> read_vector \<lparr>buffer = [9, 0, 0, 0, 1], pos = 0\<rparr> [7]
       = Some (Inl (BufferOverflow, \<lparr>buffer = [9, 0, 0, 0, 1], pos = 4\<rparr>, [7]))"
proof -
  have s: "sizeof TYPE(64) = 8"
    by (simp add: sizeof_def)
  show ?thesis
    using wf_example_truncated
      truncation_detected [OF wf_example_truncated, where 'a = 64, of 3 3 "''old''" "[7]"]
    by (simp add: s)
qed

section \<open>The cursor\<close>

text \<open>
  Claim C7: from a decoder whose cursor is within its buffer, every read (fixed-width,
  string, byte sequence) that returns or throws BufferOverflow leaves the cursor within
  the buffer and not before where it was. Such states are the reachable ones: the
  constructor gives one (lemma \<open>wf_deserializer_new\<close>) and every read gives one again.
\<close>

theorem cursor_invariant:
  assumes "wf_deserializer d" and "sizeof TYPE('a) < 2 ^ 63"
  shows "(\<forall>r. read_fixed d (t :: 'a::len word) = Some r
            \<longrightarrow> unat (pos (fst (after r))) \<le> length (buffer (fst (after r)))
              \<and> pos d \<le> pos (fst (after r)) \<and> wf_deserializer (fst (after r)))
       \<and> (\<forall>r. read_string d s = Some r
            \<longrightarrow> unat (pos (fst (after r))) \<le> length (buffer (fst (after r)))
              \<and> pos d \<le> pos (fst (after r)) \<and> wf_deserializer (fst (after r)))
       \<and> (\<forall>r. read_vector d v = Some r
            \<longrightarrow> unat (pos (fst (after r))) \<le> length (buffer (fst (after r)))
              \<and> pos d \<le> pos (fst (after r)) \<and> wf_deserializer (fst (after r)))"
  using read_fixed_cursor [OF assms, of t] read_string_cursor [OF assms(1), of s]
    read_vector_cursor [OF assms(1), of v]
  by (simp add: wf_deserializer_def)

theorem cursor_invariant_witness:
  "wf_deserializer \<lparr>buffer = [2, 0, 0, 0, 0x68, 0x69, 9], pos = 0\<rparr>
   \<and> sizeof TYPE(16) < 2 ^ 63
   \<and> read_fixed \<lparr>buffer = [2, 0, 0, 0, 0x68, 0x69, 9], pos = 0\<rparr> (0 :: 16 word)
       = Some (Inr (\<lparr>buffer = [2, 0, 0, 0, 0x68, 0x69, 9], pos = 2\<rparr>, 2))
   \<and> read_string \<lparr>buffer = [2, 0, 0, 0, 0x68, 0x69, 9], pos = 0\<rparr> []
       = Some (Inr (\<lparr>buffer = [2, 0, 0, 0, 0x68, 0x69, 9], pos = 6\<rparr>, ''hi''))
   \<and> read_vector \<lparr>buffer = [2, 0, 0, 0, 0x68, 0x69, 9], pos = 0\<rparr> []
       = Some (Inr (\<lparr>buffer = [2, 0, 0, 0, 0x68, 0x69, 9], pos = 6\<rparr>, [0x68, 0x69]))
   \<and> pos \<lparr>buffer = [2, 0, 0, 0, 0x68, 0x69, 9], pos = 0\<rparr>
       \<le> pos \<lparr>buffer = [2, 0, 0, 0, 0x68, 0x69, 9], pos = 2\<rparr>
   \<and> pos \<lparr>buffer = [2, 0, 0, 0, 0x68, 0x69, 9], pos = 0\<rparr>
       \<le> pos \<lparr>buffer = [2, 0, 0, 0, 0x68, 0x69, 9], pos = 6\<rparr>
   \<and> wf_deserializer \<lparr>buffer = [2, 0, 0, 0, 0x68, 0x69, 9], pos = 2\<rparr>
   \<and> wf_deserializer \<lparr>buffer = [2, 0, 0, 0, 0x68, 0x69, 9], pos = 6\<rparr>"
proof -
  let ?d = "\<lparr>buffer = [2, 0, 0, 0, 0x68, 0x69, 9], pos = 0\<rparr>"
  note t = cursor_invariant [OF wf_example_cursor sizeof_u16_small, of 0 "[]" "[]"]
  have f: "read_fixed ?d (0 :: 16 word)
       = Some (Inr (\<lparr>buffer = [2, 0, 0, 0, 0x68, 0x69, 9], pos = 2\<rparr>, 2))"
    by code_simp
  have s: "read_string ?d []
       = Some (Inr (\<lparr>buffer = [2, 0, 0, 0, 0x68, 0x69, 9], pos = 6\<rparr>, ''hi''))"
    by code_simp
  have v: "read_vector ?d []
       = Some (Inr (\<lparr>buffer = [2, 0, 0, 0, 0x68, 0x69, 9], pos = 6\<rparr>, [0x68, 0x69]))"
    by code_simp
  from t f have "pos ?d \<le> pos \<lparr>buffer = [2, 0, 0, 0, 0x68, 0x69, 9], pos = 2\<rparr>"
    and "wf_deserializer \<lparr>buffer = [2, 0, 0, 0, 0x68, 0x69, 9], pos = 2\<rparr>"
    by fastforce+
  moreover from t s have "pos ?d \<le> pos \<lparr>buffer = [2, 0, 0, 0, 0x68, 0x69, 9], pos = 6\<rparr>"
    and "wf_deserializer \<lparr>buffer = [2, 0, 0, 0, 0x68, 0x69, 9], pos = 6\<rparr>"
    by fastforce+
  ultimately show ?thesis
    by (intro conjI wf_example_cursor sizeof_u16_small f s v)
qed

section \<open>Zero lengths\<close>

text \<open>
  Claim C10 says that a string read and a byte-sequence read of a zero length return the
  empty value and advance the cursor by 4, also at the end of the buffer. With a zero
  count the byte-sequence read evaluates \<^verbatim>\<open>&data[0]\<close> on the vector it has just emptied,
  wherever the cursor is, and at the end of the buffer both reads evaluate
  \<^verbatim>\<open>&buffer[pos]\<close> with \<open>pos = buffer.size()\<close>: subscripts out of range, with no defined
  result. Only the string read with bytes left after the prefix does what the claim says
  (lemma \<open>read_string_zero_inside\<close>).
\<close>

theorem zero_length_read_undefined:
  "read_vector (deserializer_new [0, 0, 0, 0]) v = None
   \<and> read_string (deserializer_new [0, 0, 0, 0]) s = None
   \<and> read_vector \<lparr>buffer = [0, 0, 0, 0, 7], pos = 0\<rparr> v = None
   \<and> read_string \<lparr>buffer = [0, 0, 0, 0, 7], pos = 0\<rparr> s
       = Some (Inr (\<lparr>buffer = [0, 0, 0, 0, 7], pos = 4\<rparr>, []))"
proof -
  have wf: "wf_deserializer (deserializer_new [0, 0, 0, 0])"
    by (intro wf_deserializer_new) (simp add: max_size_def)
  have wf': "wf_deserializer \<lparr>buffer = [0, 0, 0, 0, 7], pos = 0\<rparr>"
    by (simp add: wf_deserializer_def max_size_def)
  have "read_vector (deserializer_new [0, 0, 0, 0]) v = None"
    by (rule read_vector_zero [OF wf]) (simp_all add: deserializer_new_def)
  moreover have "read_string (deserializer_new [0, 0, 0, 0]) s = None"
    by (rule read_string_at_end [OF wf]) (simp_all add: deserializer_new_def)
  moreover have "read_vector \<lparr>buffer = [0, 0, 0, 0, 7], pos = 0\<rparr> v = None"
    by (rule read_vector_zero [OF wf']) simp_all
  moreover have "read_string \<lparr>buffer = [0, 0, 0, 0, 7], pos = 0\<rparr> s
       = Some (Inr (\<lparr>buffer = [0, 0, 0, 0, 7], pos = 0\<rparr>\<lparr>pos := pos \<lparr>buffer = [0, 0, 0, 0, 7], pos = 0\<rparr> + 4\<rparr>, []))"
    by (rule read_string_zero_inside [OF wf']) simp_all
  ultimately show ?thesis
    by simp
qed

section \<open>A concrete exchange\<close>

lemma scenario_buffer:
  "get_data (write_string ''hi'' (write_fixed (42 :: uint32_t) (serializer_new capacity)))
     = [42, 0, 0, 0, 2, 0, 0, 0, 0x68, 0x69]"
proof -
  have "data (write_string ''hi'' (write_fixed (42 :: uint32_t) \<lparr>data = []\<rparr>))
     = [42, 0, 0, 0, 2, 0, 0, 0, 0x68, 0x69]"
    by code_simp
  then show ?thesis
    by (simp add: get_data_def serializer_new_def)
qed

lemma scenario_first_read:
  "read_fixed (deserializer_new [42, 0, 0, 0, 2, 0, 0, 0, 0x68, 0x69]) (t1 :: uint32_t)
     = Some (Inr (\<lparr>buffer = [42, 0, 0, 0, 2, 0, 0, 0, 0x68, 0x69], pos = 4\<rparr>, 42))"
  by (simp add: read_fixed_def deserializer_new_def buffer_size_def memcpy_from_def subscript_ok_def)

lemma scenario_second_read:
  "read_string \<lparr>buffer = [42, 0, 0, 0, 2, 0, 0, 0, 0x68, 0x69], pos = 4\<rparr> t2
     = Some (Inr (\<lparr>buffer = [42, 0, 0, 0, 2, 0, 0, 0, 0x68, 0x69], pos = 10\<rparr>, ''hi''))"
proof -
  have "map char_of_byte [0x68, 0x69] = ''hi''"
    by code_simp
  then show ?thesis
    by (simp add: read_string_def read_fixed_def buffer_size_def memcpy_from_def subscript_ok_def)
qed

lemma wf_scenario_end:
  "wf_deserializer \<lparr>buffer = [42, 0, 0, 0, 2, 0, 0, 0, 0x68, 0x69], pos = 10\<rparr>"
  by (simp add: wf_deserializer_def max_size_def)

text \<open>
  Claim C9: writing the 32-bit value 42 and then the string \<open>hi\<close> gives a buffer of
  exactly 10 bytes; a decoder on that buffer reads 42 and then \<open>hi\<close>; and a third read,
  of any type of one byte or more (or of a string or byte sequence), throws
  BufferOverflow.
\<close>

theorem concrete_scenario:
  assumes "0 < sizeof TYPE('a)" and "sizeof TYPE('a) < 2 ^ 63"
  shows "get_data (write_string ''hi'' (write_fixed (42 :: uint32_t) (serializer_new capacity)))
           = [42, 0, 0, 0, 2, 0, 0, 0, 0x68, 0x69]
       \<and> length (get_data (write_string ''hi'' (write_fixed (42 :: uint32_t) (serializer_new capacity))))
           = 10
       \<and> read_fixed (deserializer_new
              (get_data (write_string ''hi'' (write_fixed (42 :: uint32_t) (serializer_new capacity)))))
            (t1 :: uint32_t)
           = Some (Inr (\<lparr>buffer = [42, 0, 0, 0, 2, 0, 0, 0, 0x68, 0x69], pos = 4\<rparr>, 42))
       \<and> read_string \<lparr>buffer = [42, 0, 0, 0, 2, 0, 0, 0, 0x68, 0x69], pos = 4\<rparr> t2
           = Some (Inr (\<lparr>buffer = [42, 0, 0, 0, 2, 0, 0, 0, 0x68, 0x69], pos = 10\<rparr>, ''hi''))
       \<and> read_fixed \<lparr>buffer = [42, 0, 0, 0, 2, 0, 0, 0, 0x68, 0x69], pos = 10\<rparr> (t3 :: 'a::len word)
           = Some (Inl (BufferOverflow,
               \<lparr>buffer = [42, 0, 0, 0, 2, 0, 0, 0, 0x68, 0x69], pos = 10\<rparr>, t3))
       \<and> read_string \<lparr>buffer = [42, 0, 0, 0, 2, 0, 0, 0, 0x68, 0x69], pos = 10\<rparr> t4
           = Some (Inl (BufferOverflow,
               \<lparr>buffer = [42, 0, 0, 0, 2, 0, 0, 0, 0x68, 0x69], pos = 10\<rparr>, t4))
       \<and> read_vector \<lparr>buffer = [42, 0, 0, 0, 2, 0, 0, 0, 0x68, 0x69], pos = 10\<rparr> t5
           = Some (Inl (BufferOverflow,
               \<lparr>buffer = [42, 0, 0, 0, 2, 0, 0, 0, 0x68, 0x69], pos = 10\<rparr>, t5))"
proof -
  let ?d2 = "\<lparr>buffer = [42, 0, 0, 0, 2, 0, 0, 0, 0x68, 0x69], pos = 10\<rparr>"
  have third: "read_fixed ?d2 t3 = Some (Inl (BufferOverflow, ?d2, t3))"
    using assms(1) by (intro read_fixed_overflow [OF wf_scenario_end assms(2)]) simp
  have third_string: "read_string ?d2 t4 = Some (Inl (BufferOverflow, ?d2, t4))"
    by (intro read_string_no_prefix [OF wf_scenario_end]) simp
  have third_vector: "read_vector ?d2 t5 = Some (Inl (BufferOverflow, ?d2, t5))"
    by (intro read_vector_no_prefix [OF wf_scenario_end]) simp
  show ?thesis
    unfolding scenario_buffer
    by (intro conjI refl scenario_first_read scenario_second_read third third_string third_vector)
      simp
qed

theorem concrete_scenario_witness:
  "0 < sizeof TYPE(8) \<and> sizeof TYPE(8) < 2 ^ 63
   \<and> read_fixed \<lparr>buffer = [42, 0, 0, 0, 2, 0, 0, 0, 0x68, 0x69], pos = 10\<rparr> (7 :: uint8_t)
       = Some (Inl (BufferOverflow,
           \<lparr>buffer = [42, 0, 0, 0, 2, 0, 0, 0, 0x68, 0x69], pos = 10\<rparr>, 7))"
proof -
  have a: "0 < sizeof TYPE(8)" and b: "sizeof TYPE(8) < 2 ^ 63"
    by simp_all
  note t = concrete_scenario [OF a b, of 0 0 "[]" 7 "[]" "[]"]
  from t have "read_fixed \<lparr>buffer = [42, 0, 0, 0, 2, 0, 0, 0, 0x68, 0x69], pos = 10\<rparr> (7 :: uint8_t)
       = Some (Inl (BufferOverflow,
           \<lparr>buffer = [42, 0, 0, 0, 2, 0, 0, 0, 0x68, 0x69], pos = 10\<rparr>, 7))"
    by blast
  then show ?thesis
    by (intro conjI a b)
qed

section \<open>Hex rendering\<close>

lemma put_hex_two_digits:
  "put_hex b = [hex_digit (unat b div 16), hex_digit (unat b mod 16)]"
proof -
  have small: "unat b < 256"
    using unsigned_less [of b] by simp
  show ?thesis
  proof (cases "unat b < 16")
    case True
    then have "hex_digits (unat b) = [hex_digit (unat b)]"
      by (simp add: hex_digits.simps)
    with True show ?thesis
      by (simp add: put_hex_def setw_setfill_def hex_digit_def)
  next
    case False
    moreover from small have "unat b div 16 < 16"
      by simp
    ultimately have "hex_digits (unat b) = [hex_digit (unat b div 16), hex_digit (unat b mod 16)]"
      by (simp add: hex_digits.simps [of "unat b"] hex_digits.simps [of "unat b div 16"])
    then show ?thesis
      by (simp add: put_hex_def setw_setfill_def)
  qed
qed

lemma hex_digit_lowercase:
  "n < 16 \<Longrightarrow> hex_digit n \<in> set ''0123456789abcdef''"
  unfolding hex_digit_def by (rule nth_mem) simp

lemma put_hex_lowercase: "set (put_hex b) \<subseteq> set ''0123456789abcdef''"
proof -
  have "unat b < 256"
    using unsigned_less [of b] by simp
  then have "unat b div 16 < 16" and "unat b mod 16 < 16"
    by simp_all
  then have "hex_digit (unat b div 16) \<in> set ''0123456789abcdef''"
    and "hex_digit (unat b mod 16) \<in> set ''0123456789abcdef''"
    by (simp_all only: hex_digit_lowercase)
  then show ?thesis
    unfolding put_hex_two_digits by simp
qed

text \<open>The counter while it counts up from 0: it is the number of bytes rendered so far.\<close>

lemma loop_counter:
  assumes "k < 2 ^ 31"
  shows "sint (of_nat k :: int32_t) = int k"
    and "(scast (of_nat k :: int32_t) :: size_t) = of_nat k"
    and "(of_nat k :: int32_t) + 1 = of_nat (Suc k)"
proof -
  show s: "sint (of_nat k :: int32_t) = int k"
    using assms by (simp add: signed_of_nat signed_take_bit_int_eq_self)
  then show "(scast (of_nat k :: int32_t) :: size_t) = of_nat k"
    by (simp add: scast_eq)
  show "(of_nat k :: int32_t) + 1 = of_nat (Suc k)"
    by simp
qed

lemma loop_test:
  assumes "k < 2 ^ 31" and "n < 2 ^ 63"
  shows "(scast (of_nat k :: int32_t) :: size_t) < of_nat n \<longleftrightarrow> k < n"
proof -
  have "unat (of_nat k :: size_t) = k"
    using assms(1) by (intro unat_of_nat_small) simp
  moreover have "unat (of_nat n :: size_t) = n"
    using assms(2) by (intro unat_of_nat_small) simp
  ultimately show ?thesis
    by (simp add: loop_counter(2) [OF assms(1)] word_less_nat_alt)
qed

text \<open>The counter after \<open>2\<^sup>3\<^sup>1\<close> increments: \<^verbatim>\<open>INT32_MIN\<close>, a huge \<^verbatim>\<open>size_t\<close>.\<close>

lemma loop_test_wrapped:
  assumes "n < 2 ^ 63"
  shows "\<not> (scast (of_nat (2 ^ 31) :: int32_t) :: size_t) < of_nat n"
proof -
  have "(scast (of_nat (2 ^ 31) :: int32_t) :: size_t) = 0xFFFFFFFF80000000"
    by simp
  moreover have "unat (of_nat n :: size_t) = n"
    using assms by (intro unat_of_nat_small) simp
  ultimately show ?thesis
    using assms by (simp add: word_less_nat_alt)
qed

lemma bytes_to_hex_loop_renders:
  assumes "length inp < 2 ^ 63" and "k \<le> min (2 ^ 31) (length inp)"
  shows "bytes_to_hex_loop inp (of_nat (length inp)) (of_nat k) ss
           = Some (ss @ concat (map put_hex (take (2 ^ 31 - k) (drop k inp))))"
  using assms(2)
proof (induction "min (2 ^ 31) (length inp) - k" arbitrary: k ss)
  case 0
  then have k: "k = min (2 ^ 31) (length inp)"
    by (auto simp add: min_def split: if_splits)
  have rest: "take (2 ^ 31 - k) (drop k inp) = []"
    using k by (simp add: min_def split: if_splits)
  have "\<not> (scast (of_nat k :: int32_t) :: size_t) < of_nat (length inp)"
  proof (cases "k < 2 ^ 31")
    case True
    with k have "\<not> k < length inp"
      by simp
    then show ?thesis
      by (simp add: loop_test [OF True assms(1)])
  next
    case False
    with k have "k = 2 ^ 31"
      by simp
    then show ?thesis
      using loop_test_wrapped [OF assms(1)] by simp
  qed
  then have "bytes_to_hex_loop inp (of_nat (length inp)) (of_nat k) ss = Some ss"
    by (subst bytes_to_hex_loop.simps) simp
  then show ?case
    unfolding rest by simp
next
  case (Suc m)
  then have small: "k < 2 ^ 31" and in_range: "k < length inp"
    by (auto simp add: min_def split: if_splits)
  have test: "(scast (of_nat k :: int32_t) :: size_t) < of_nat (length inp)"
    using in_range by (simp add: loop_test [OF small assms(1)])
  have step: "bytes_to_hex_loop inp (of_nat (length inp)) (of_nat k) ss
      = bytes_to_hex_loop inp (of_nat (length inp)) (of_nat (Suc k)) (ss @ put_hex (inp ! k))"
    using in_range test
    by (subst bytes_to_hex_loop.simps) (simp add: loop_counter(1,3) [OF small] del: of_nat_Suc)
  have "m = min (2 ^ 31) (length inp) - Suc k" and "Suc k \<le> min (2 ^ 31) (length inp)"
    using Suc.hyps(2) small in_range by (auto simp add: min_def split: if_splits)
  then have "bytes_to_hex_loop inp (of_nat (length inp)) (of_nat (Suc k)) (ss @ put_hex (inp ! k))
      = Some ((ss @ put_hex (inp ! k)) @ concat (map put_hex (take (2 ^ 31 - Suc k) (drop (Suc k) inp))))"
    by (rule Suc.hyps(1))
  moreover have "take (2 ^ 31 - k) (drop k inp) = inp ! k # take (2 ^ 31 - Suc k) (drop (Suc k) inp)"
  proof -
    have "drop k inp = inp ! k # drop (Suc k) inp"
      using in_range by (simp add: Cons_nth_drop_Suc)
    moreover have "(2 :: nat) ^ 31 - k = Suc (2 ^ 31 - Suc k)"
      using small by simp
    ultimately show ?thesis
      by (simp only: take_Suc_Cons)
  qed
  ultimately show ?case
    using step by simp
qed

text \<open>What the renderer returns for a buffer: the rendering of its first \<open>2\<^sup>3\<^sup>1\<close> bytes.\<close>

lemma bytes_to_hex_renders:
  assumes "length inp < 2 ^ 63"
  shows "bytes_to_hex inp (of_nat (length inp)) = Some (concat (map put_hex (take (2 ^ 31) inp)))"
  using bytes_to_hex_loop_renders [OF assms, of 0 "[]"] by (simp add: bytes_to_hex_def)

lemma hex_render_small:
  assumes "length inp \<le> 2 ^ 31"
  shows "bytes_to_hex inp (of_nat (length inp))
           = Some (concat (map (\<lambda>b. [hex_digit (unat b div 16), hex_digit (unat b mod 16)]) inp))"
proof -
  have "length inp < 2 ^ 63"
    using assms by simp
  then show ?thesis
    using assms by (simp add: bytes_to_hex_renders put_hex_two_digits [abs_def])
qed

lemma hex_render_example:
  "bytes_to_hex [0x00, 0x2A, 0xFF] 3 = Some ''002aff''"
  using hex_render_small [of "[0x00, 0x2A, 0xFF]"] by (simp add: hex_digit_def)

lemma length_rendering: "length (concat (map put_hex xs)) = 2 * length xs"
  by (induction xs) (simp_all add: put_hex_two_digits)

text \<open>
  Claim C8 says that every byte sequence is rendered as two lowercase hexadecimal
  characters per byte. The code does so up to \<open>2\<^sup>3\<^sup>1\<close> bytes (lemma \<open>hex_render_small\<close>;
  \<open>002aff\<close> is lemma \<open>hex_render_example\<close>). Its loop counter is an \<^verbatim>\<open>int32_t\<close> compared
  with a \<^verbatim>\<open>size_t\<close> count: after \<open>2\<^sup>3\<^sup>1\<close> bytes it has wrapped to a negative value, which
  as a \<^verbatim>\<open>size_t\<close> is above any count, and the loop ends. Of \<open>2\<^sup>3\<^sup>1 + 1\<close> bytes the last
  one is not rendered: the string has \<open>2\<^sup>3\<^sup>2\<close> characters, two fewer than two per byte.
\<close>

theorem hex_render_truncated:
  "map_option length (bytes_to_hex (replicate (2 ^ 31 + 1) (0 :: uint8_t))
      (of_nat (length (replicate (2 ^ 31 + 1) (0 :: uint8_t))))) = Some (2 ^ 32)
   \<and> 2 * length (replicate (2 ^ 31 + 1) (0 :: uint8_t)) = 2 ^ 32 + 2"
proof -
  have "length (replicate (2 ^ 31 + 1) (0 :: uint8_t)) < 2 ^ 63"
    by simp
  then have "bytes_to_hex (replicate (2 ^ 31 + 1) (0 :: uint8_t))
      (of_nat (length (replicate (2 ^ 31 + 1) (0 :: uint8_t))))
    = Some (concat (map put_hex (take (2 ^ 31) (replicate (2 ^ 31 + 1) (0 :: uint8_t)))))"
    by (rule bytes_to_hex_renders)
  then show ?thesis
    by (simp add: length_rendering del: map_replicate take_replicate)
qed

end
